theory Spec2Isabelle
  imports Complex_Main "HOL-Library.Multiset"
begin

section \<open>Errors and the module namespace\<close>

text \<open>
  The module \<^verbatim>\<open>parallel_inverse_aggregate.py\<close> is embedded function by function.
  A Python exception is a value of \<open>error\<close>, and a function that can raise returns
  \<open>error + 'a\<close> with \<open>Inl\<close> for the exception. \<open>NonFiniteCast\<close> is not a Python
  exception: numpy's float floor division by zero yields \<open>inf\<close> or \<open>nan\<close> with a
  warning and the later cast of such a value to an integer is not defined by numpy, so
  the model stops there instead of inventing an integer.

  Integers are unbounded (\<open>int\<close>): the 64-bit wrap-around of numpy's integer arrays is
  not modelled. Positions, cell sizes and distances are \<open>real\<close>: the rounding of
  floating point arithmetic is not modelled.
\<close>

datatype error = NameError | TypeError | ValueError | IndexError | ZeroDivisionError | NonFiniteCast

definition bind_err :: "error + 'a \<Rightarrow> ('a \<Rightarrow> error + 'b) \<Rightarrow> error + 'b" where
  "bind_err m f = (case m of Inl e \<Rightarrow> Inl e | Inr x \<Rightarrow> f x)"

text \<open>
  Running a list of computations in order and stopping at the first exception: the
  model of consuming a lazy \<^verbatim>\<open>map\<close> or a generator whose elements may raise.
\<close>

fun sequence_err :: "(error + 'a) list \<Rightarrow> error + 'a list" where
  "sequence_err [] = Inr []"
| "sequence_err (x # xs) =
     (case x of
        Inl e \<Rightarrow> Inl e
      | Inr y \<Rightarrow> (case sequence_err xs of Inl e \<Rightarrow> Inl e | Inr ys \<Rightarrow> Inr (y # ys)))"

text \<open>
  Python resolves a name that is neither a parameter nor a local variable of a function
  in the global namespace of the defining module, when the statement runs, and raises
  \<^verbatim>\<open>NameError\<close> when the name is not bound. Several function bodies of the module
  read such names: \<^verbatim>\<open>bin_coords\<close> (in \<^verbatim>\<open>compute_linearized_bin_coords\<close>, whose
  parameter is called \<^verbatim>\<open>bins_coords\<close>), \<^verbatim>\<open>subgroups_and_coords\<close> and
  \<^verbatim>\<open>max_distance\<close> (in \<^verbatim>\<open>compute_mapped_distance_on_subgroup\<close>, whose parameters
  are \<^verbatim>\<open>subgroup_info\<close> and \<^verbatim>\<open>max_distance_in_cells\<close>), \<^verbatim>\<open>grid\<close> and
  \<^verbatim>\<open>idxes\<close> (in \<^verbatim>\<open>build_uniform_grid_bin\<close>) and \<^verbatim>\<open>samples2\<close> (in
  \<^verbatim>\<open>mapped_distance_matrix\<close>). The namespace is a parameter of the model, one optional
  value per such name; \<open>module_globals\<close> is the namespace the module has after import:
  its top level binds \<^verbatim>\<open>np\<close>, \<^verbatim>\<open>as_completed\<close> and the seven functions, and none
  of these names.
\<close>

record globals =
  g_bin_coords :: "int list list option"
  g_subgroups_and_coords :: "(real list list \<times> int list \<times> int list \<times> real list) option"
  g_grid :: "real list list option"
  g_idxes :: "nat list option"
  g_max_distance :: "real option"
  g_samples2 :: "real list list option"

definition module_globals :: globals where
  "module_globals =
     \<lparr>g_bin_coords = None, g_subgroups_and_coords = None, g_grid = None,
      g_idxes = None, g_max_distance = None, g_samples2 = None\<rparr>"

section \<open>The numpy operations the module calls\<close>

text \<open>
  A one-dimensional array is a list; a two-dimensional array is the list of its rows,
  all of one length (an array with no rows carries no column count here). The
  definitions follow numpy's documented behaviour.
\<close>

text \<open>
  Elementwise binary operation on two one-dimensional arrays under numpy's broadcasting:
  the lengths agree, or one of them is 1; otherwise \<^verbatim>\<open>ValueError\<close>.
\<close>

definition broadcast2 :: "('a \<Rightarrow> 'b \<Rightarrow> 'c) \<Rightarrow> 'a list \<Rightarrow> 'b list \<Rightarrow> error + 'c list" where
  "broadcast2 f xs ys =
     (if length xs = length ys then Inr (map2 f xs ys)
      else if length xs = 1 then Inr (map (f (hd xs)) ys)
      else if length ys = 1 then Inr (map (\<lambda>x. f x (hd ys)) xs)
      else Inl ValueError)"

text \<open>Python's \<^verbatim>\<open>xs[st:end]\<close> for non-negative bounds.\<close>

definition slice :: "nat \<Rightarrow> nat \<Rightarrow> 'a list \<Rightarrow> 'a list" where
  "slice st en xs = take (en - st) (drop st xs)"

text \<open>
  The loop that ends \<^verbatim>\<open>np.split\<close> and \<^verbatim>\<open>np.array_split\<close>: one sub-array
  \<^verbatim>\<open>ary[div_points[i]:div_points[i + 1]]\<close> per pair of neighbouring division points.
\<close>

fun slices :: "nat list \<Rightarrow> 'a list \<Rightarrow> 'a list list" where
  "slices (st # en # ps) xs = slice st en xs # slices (en # ps) xs"
| "slices [st] xs = []"
| "slices [] xs = []"

text \<open>\<^verbatim>\<open>np.split(ary, indices)\<close> with a one-dimensional array of indices.\<close>

definition np_split :: "'a list \<Rightarrow> nat list \<Rightarrow> 'a list list" where
  "np_split ary indices = slices (0 # indices @ [length ary]) ary"

text \<open>\<^verbatim>\<open>np.cumsum\<close>, with the running total as an argument.\<close>

fun cumsum_from :: "nat \<Rightarrow> nat list \<Rightarrow> nat list" where
  "cumsum_from acc [] = []"
| "cumsum_from acc (x # xs) = (acc + x) # cumsum_from (acc + x) xs"

text \<open>
  \<^verbatim>\<open>np.array_split(ary, n)\<close> with a scalar \<open>n\<close>: \<^verbatim>\<open>ValueError\<close> when \<open>n \<le> 0\<close>;
  otherwise \<open>n\<close> sections, the first \<open>len mod n\<close> of them one element longer than the
  others.
\<close>

definition array_split :: "'a list \<Rightarrow> int \<Rightarrow> error + 'a list list" where
  "array_split ary nsections =
     (if nsections \<le> 0 then Inl ValueError
      else
        let Ntotal = length ary;
            n = nat nsections;
            neach = Ntotal div n;
            extras = Ntotal mod n;
            section_sizes = 0 # replicate extras (neach + 1) @ replicate (n - extras) neach
        in Inr (slices (cumsum_from 0 section_sizes) ary))"

text \<open>
  \<^verbatim>\<open>argsort\<close> returns a permutation of the positions that sorts the keys. numpy's
  default sort is not stable, so which permutation it is among equal keys is not fixed;
  \<open>valid_argsort\<close> says what every result satisfies, and \<open>argsort\<close> is the stable one.
\<close>

definition valid_argsort :: "int list \<Rightarrow> nat list \<Rightarrow> bool" where
  "valid_argsort ks perm =
     (mset perm = mset [0..<length ks] \<and> sorted (map (\<lambda>i. ks ! i) perm))"

definition argsort :: "int list \<Rightarrow> nat list" where
  "argsort ks = map snd (sort_key fst (zip ks [0..<length ks]))"

text \<open>\<^verbatim>\<open>a[perm]\<close>: the rows of \<open>a\<close> at the positions \<open>perm\<close>, all in range.\<close>

definition take_rows :: "'a list \<Rightarrow> nat list \<Rightarrow> 'a list" where
  "take_rows a perm = map (\<lambda>i. a ! i) perm"

text \<open>
  \<^verbatim>\<open>np.unique(ks, return_index=True)[1]\<close>: for each distinct value, in ascending
  order of the values, the position of its first occurrence.
\<close>

definition first_index :: "int list \<Rightarrow> int \<Rightarrow> nat" where
  "first_index ks v = length (takeWhile (\<lambda>x. x \<noteq> v) ks)"

definition unique_index :: "int list \<Rightarrow> nat list" where
  "unique_index ks = map (first_index ks) (sorted_list_of_set (set ks))"

text \<open>
  \<^verbatim>\<open>np.dot(m, v[:, None])\<close> for a two-dimensional \<open>m\<close> and a one-dimensional \<open>v\<close>:
  \<^verbatim>\<open>ValueError\<close> unless every row of \<open>m\<close> is as long as \<open>v\<close>. The result has one
  column; it is held as the list of its entries.
\<close>

definition np_dot_col :: "int list list \<Rightarrow> int list \<Rightarrow> error + int list" where
  "np_dot_col m v =
     (if list_all (\<lambda>row. length row = length v) m
      then Inr (map (\<lambda>row. sum_list (map2 (*) row v)) m)
      else Inl ValueError)"

text \<open>Python indexing of a sequence by one integer: negative indices count from the end.\<close>

definition py_get :: "'a list \<Rightarrow> int \<Rightarrow> error + 'a" where
  "py_get xs i =
     (let n = int (length xs); j = (if i < 0 then n + i else i)
      in if 0 \<le> j \<and> j < n then Inr (xs ! nat j) else Inl IndexError)"

text \<open>\<^verbatim>\<open>xs[idx]\<close> for an integer array \<open>idx\<close>.\<close>

definition fancy_index :: "'a list \<Rightarrow> int list \<Rightarrow> error + 'a list" where
  "fancy_index xs idx = sequence_err (map (py_get xs) idx)"

section \<open>group\_by\<close>

text \<open>
  \<^verbatim>\<open>a = a[a[:, 0].argsort()]\<close>
  \<^verbatim>\<open>return np.split(a[:, 1], np.unique(a[:, 0], return_index=True)[1][1:])\<close>

  The two-column array is a list of (key, value) pairs. \<open>group_by_with\<close> is the body
  for a given result \<open>perm\<close> of \<^verbatim>\<open>argsort\<close>.
\<close>

definition group_by_with :: "nat list \<Rightarrow> (int \<times> 'v) list \<Rightarrow> 'v list list" where
  "group_by_with perm a =
     (let a' = take_rows a perm
      in np_split (map snd a') (tl (unique_index (map fst a'))))"

definition group_by :: "(int \<times> 'v) list \<Rightarrow> 'v list list" where
  "group_by a = group_by_with (argsort (map fst a)) a"

section \<open>compute\_linearized\_bin\_coords\<close>

text \<open>
  \<^verbatim>\<open>shifted_nbins_per_axis = np.ones_like(bins_per_axis, dtype=int)\<close>
  \<^verbatim>\<open>shifted_nbins_per_axis[:-1] = bins_per_axis[1:]\<close>
\<close>

definition shifted_nbins_per_axis :: "int list \<Rightarrow> int list" where
  "shifted_nbins_per_axis bins_per_axis =
     (if bins_per_axis = [] then [] else tl bins_per_axis @ [1])"

text \<open>
  \<^verbatim>\<open>return np.dot(bin_coords, shifted_nbins_per_axis[:, None])\<close>

  The parameter is \<^verbatim>\<open>bins_coords\<close>; the body reads \<^verbatim>\<open>bin_coords\<close>, a global name.
\<close>

definition compute_linearized_bin_coords :: "globals \<Rightarrow> int list \<Rightarrow> int list list \<Rightarrow> error + int list" where
  "compute_linearized_bin_coords G bins_per_axis bins_coords =
     (let shifted = shifted_nbins_per_axis bins_per_axis
      in case g_bin_coords G of
           None \<Rightarrow> Inl NameError
         | Some bin_coords \<Rightarrow> np_dot_col bin_coords shifted)"

section \<open>extract\_subproblems\<close>

text \<open>
  The result is a lazy \<^verbatim>\<open>map\<close> over the bins: one computation per bin, which raises
  or yields the bin's sub-arrays when the element is asked for. \<^verbatim>\<open>len(arr) / n\<close> is
  Python's true division (\<^verbatim>\<open>ZeroDivisionError\<close> for \<open>n = 0\<close>) and \<^verbatim>\<open>np.ceil\<close> its
  ceiling.
\<close>

definition n_sections :: "'a list \<Rightarrow> int \<Rightarrow> int" where
  "n_sections arr n_per_subgroup = \<lceil>(of_nat (length arr) :: rat) / of_int n_per_subgroup\<rceil>"

definition extract_subproblems :: "'a list list \<Rightarrow> int \<Rightarrow> (error + 'a list list) list" where
  "extract_subproblems indexes n_per_subgroup =
     (if n_per_subgroup \<noteq> - 1 then
        map (\<lambda>arr. if n_per_subgroup = 0 then Inl ZeroDivisionError
                   else array_split arr (n_sections arr n_per_subgroup))
          indexes
      else map (\<lambda>arr. Inr [arr]) indexes)"

section \<open>distribute\_subproblems\<close>

text \<open>
  \<^verbatim>\<open>np.floor_divide\<close> of floats followed by \<^verbatim>\<open>astype(int)\<close>, one entry.
\<close>

definition floor_divide :: "real \<Rightarrow> real \<Rightarrow> error + int" where
  "floor_divide x d = (if d = 0 then Inl NonFiniteCast else Inr \<lfloor>x / d\<rfloor>)"

text \<open>
  \<^verbatim>\<open>np.clip(row, None, ub, out=row)\<close> for one row: no lower bound, the upper bound
  \<open>ub\<close> per axis; the result must fit the row, so \<open>ub\<close> is as long as the row or has
  length 1.
\<close>

definition clip_upper_out :: "int list \<Rightarrow> int list \<Rightarrow> error + int list" where
  "clip_upper_out row ub =
     (if length ub = length row then Inr (map2 min row ub)
      else if length ub = 1 then Inr (map (\<lambda>x. min x (hd ub)) row)
      else Inl ValueError)"

text \<open>
  Lines 176 to 181, the bin coordinate of every point:
  \<^verbatim>\<open>bin_coords = np.floor_divide(pts, uniform_grid_cell_size * bins_size).astype(int)\<close>
  \<^verbatim>\<open>np.clip(bin_coords, None, uniform_grid_cell_count - 1, out=bin_coords)\<close>

  The product \<^verbatim>\<open>uniform_grid_cell_size * bins_size\<close> is rounded to a double by the
  code and is exact here. The two agree where the product is itself a double (as
  \<open>1 * 2\<close> is, and \<open>0.1 * 3\<close> is not), and differ by one bin for some points next to a
  bin boundary otherwise. Every statement below that gives a value of
  \<open>distribute_bin_coords\<close> does so on cell sizes, bin sizes and positions whose product
  and quotient are exact in double precision; no coordinate is stated for other inputs.
\<close>

definition distribute_bin_coords :: "real list \<Rightarrow> int list \<Rightarrow> int list \<Rightarrow> real list list \<Rightarrow> error + int list list" where
  "distribute_bin_coords uniform_grid_cell_size uniform_grid_cell_count bins_size pts =
     bind_err (broadcast2 (\<lambda>s b. s * of_int b) uniform_grid_cell_size bins_size) (\<lambda>bin_extent.
     bind_err (sequence_err (map (\<lambda>p. bind_err (broadcast2 floor_divide p bin_extent) sequence_err) pts)) (\<lambda>raw.
     sequence_err (map (\<lambda>row. clip_upper_out row (map (\<lambda>c. c - 1) uniform_grid_cell_count)) raw)))"

text \<open>
  \<^verbatim>\<open>uniform_grid_cell_count // bins_size\<close> on integer arrays: numpy's floor division,
  which yields 0 (and a warning) for a zero divisor, as \<open>div\<close> does.
\<close>

definition np_floordiv :: "int \<Rightarrow> int \<Rightarrow> int" where
  "np_floordiv a b = a div b"

text \<open>
  \<^verbatim>\<open>np.hstack([linearized_bin_coords, np.arange(len(pts))[:, None]])\<close>: the column of
  keys beside the column of point indices; \<^verbatim>\<open>ValueError\<close> when the row counts differ.
\<close>

definition hstack_index :: "int list \<Rightarrow> nat \<Rightarrow> error + (int \<times> int) list" where
  "hstack_index linearized n =
     (if length linearized = n then Inr (zip linearized (map int [0..<n])) else Inl ValueError)"

text \<open>
  The task \<^verbatim>\<open>bin_content_tuple\<close> of one subproblem. It runs inside a future, so an
  exception it raises is the future's result.
\<close>

definition bin_content_tuple ::
  "real list \<Rightarrow> int list \<Rightarrow> real list list \<Rightarrow> int list list
     \<Rightarrow> error + (real list list \<times> int list \<times> int list \<times> real list)" where
  "bin_content_tuple weights bin_content pts bin_coords =
     bind_err (fancy_index pts bin_content) (\<lambda>sub_pts.
     bind_err (bind_err (py_get bin_content 0) (py_get bin_coords)) (\<lambda>coords.
     bind_err (fancy_index weights bin_content) (\<lambda>sub_weights.
     Inr (sub_pts, coords, bin_content, sub_weights))))"

text \<open>
  The distributor. The client is not modelled: a future is the result its task will
  have, and the returned list holds one future per subproblem, in dispatch order. The
  generator over the subproblems is consumed by \<^verbatim>\<open>client.map\<close> in the caller, so an
  exception of \<^verbatim>\<open>extract_subproblems\<close> is raised by the call itself.
\<close>

definition distribute_subproblems ::
  "globals \<Rightarrow> real list \<Rightarrow> int list \<Rightarrow> int list \<Rightarrow> real list list \<Rightarrow> real list \<Rightarrow> int
     \<Rightarrow> error + (error + (real list list \<times> int list \<times> int list \<times> real list)) list" where
  "distribute_subproblems G uniform_grid_cell_size uniform_grid_cell_count bins_size pts weights pts_per_future =
     bind_err (broadcast2 np_floordiv uniform_grid_cell_count bins_size) (\<lambda>bins_per_axis.
     bind_err (distribute_bin_coords uniform_grid_cell_size uniform_grid_cell_count bins_size pts) (\<lambda>bin_coords.
     bind_err (compute_linearized_bin_coords G bins_per_axis bin_coords) (\<lambda>linearized_bin_coords.
     bind_err (hstack_index linearized_bin_coords (length pts)) (\<lambda>aug_linearized_bin_coords.
     let indexes_inside_bins = group_by aug_linearized_bin_coords;
         subproblems = extract_subproblems indexes_inside_bins pts_per_future
     in bind_err (sequence_err subproblems) (\<lambda>bins.
        Inr (map (\<lambda>subgroup. bin_content_tuple weights subgroup pts bin_coords) (concat bins)))))))"

section \<open>compute\_mapped\_distance\_on\_subgroup\<close>

text \<open>\<^verbatim>\<open>return grid, idxes\<close>: both names are global.\<close>

definition build_uniform_grid_bin :: "globals \<Rightarrow> error + (real list list \<times> nat list)" where
  "build_uniform_grid_bin G =
     (case g_grid G of
        None \<Rightarrow> Inl NameError
      | Some grid \<Rightarrow> (case g_idxes G of None \<Rightarrow> Inl NameError | Some idxes \<Rightarrow> Inr (grid, idxes)))"

text \<open>
  \<^verbatim>\<open>np.linalg.norm(uniform_grid[..., None] - subgroup.T[:, None, None], axis=0)\<close>, one
  entry: the Euclidean distance of a grid point and a point of the subgroup. The grid is
  held as the list of its points.
\<close>

definition euclid :: "real list \<Rightarrow> real list \<Rightarrow> real" where
  "euclid g p = sqrt (sum_list (map2 (\<lambda>a b. (a - b)\<^sup>2) g p))"

text \<open>
  The mapper. Its first statement unpacks the global \<^verbatim>\<open>subgroups_and_coords\<close>, not
  the parameter \<^verbatim>\<open>subgroup_info\<close>; the cutoff it compares with is the global
  \<^verbatim>\<open>max_distance\<close>, not the parameter \<^verbatim>\<open>max_distance_in_cells\<close>. The mapping
  function is applied entry by entry.
\<close>

definition compute_mapped_distance_on_subgroup ::
  "globals \<Rightarrow> (real list list \<times> int list \<times> int list \<times> real list) \<Rightarrow> real list \<Rightarrow> int list \<Rightarrow> int list
     \<Rightarrow> real \<Rightarrow> (real \<Rightarrow> real) \<Rightarrow> bool \<Rightarrow> int list
     \<Rightarrow> error + (real list list \<times> nat list \<times> int list)" where
  "compute_mapped_distance_on_subgroup G subgroup_info uniform_grid_cell_size uniform_grid_cell_count
       bins_size max_distance_in_cells function exact_max_distance reference_bin =
     (case g_subgroups_and_coords G of
        None \<Rightarrow> Inl NameError
      | Some (subgroup, bin_coords, nup_idxes, weights) \<Rightarrow>
          bind_err (build_uniform_grid_bin G) (\<lambda>(uniform_grid, samples1_idxes).
            let distances = map (\<lambda>g. map (euclid g) subgroup) uniform_grid
            in if exact_max_distance then
                 (case g_max_distance G of
                    None \<Rightarrow> Inl NameError
                  | Some max_distance \<Rightarrow>
                      Inr (map (map (\<lambda>d. if d < max_distance then function d else 0)) distances,
                           samples1_idxes, nup_idxes))
               else Inr (map (map function) distances, samples1_idxes, nup_idxes)))"

section \<open>mapped\_distance\_matrix\<close>

text \<open>
  After the default for \<^verbatim>\<open>weights\<close>, the first statement is the call
  \<^verbatim>\<open>distribute_subproblems(uniform_grid_cell_size, uniform_grid_cell_count, samples2,
  bins_size, pts_per_future=pts_per_future, client=client)\<close>.
  Its third argument is the global name \<^verbatim>\<open>samples2\<close>, so evaluating the arguments
  raises \<^verbatim>\<open>NameError\<close> when the name is not bound. When it is bound, the call passes
  four positional and two keyword arguments to a function of seven required parameters:
  \<^verbatim>\<open>weights\<close> is missing and Python raises \<^verbatim>\<open>TypeError\<close> before the body of
  \<^verbatim>\<open>distribute_subproblems\<close> runs. No statement after the call is reached.
\<close>

definition mapped_distance_matrix ::
  "globals \<Rightarrow> real list \<Rightarrow> int list \<Rightarrow> int list \<Rightarrow> real list list \<Rightarrow> real \<Rightarrow> (real \<Rightarrow> real)
     \<Rightarrow> real list option \<Rightarrow> bool \<Rightarrow> int \<Rightarrow> error + real list list" where
  "mapped_distance_matrix G uniform_grid_cell_size uniform_grid_cell_count bins_size non_uniform_points
       max_distance func weights exact_max_distance pts_per_future =
     (let weights' = (case weights of None \<Rightarrow> replicate (length non_uniform_points) 1 | Some w \<Rightarrow> w)
      in case g_samples2 G of
           None \<Rightarrow> Inl NameError
         | Some samples2 \<Rightarrow> Inl TypeError)"

section \<open>Subproblem extraction\<close>

lemma length_slices: "length (slices ps xs) = length ps - 1"
  by (induction ps xs rule: slices.induct) simp_all

lemma length_cumsum_from: "length (cumsum_from c sizes) = length sizes"
  by (induction sizes arbitrary: c) simp_all

lemma concat_slices_cumsum:
  "concat (slices (c # cumsum_from c sizes) xs) = take (sum_list sizes) (drop c xs)"
proof (induction sizes arbitrary: c)
  case Nil
  then show ?case by simp
next
  case (Cons s ss)
  have "take (s + sum_list ss) (drop c xs) = take s (drop c xs) @ take (sum_list ss) (drop (c + s) xs)"
    by (simp add: take_add add.commute)
  with Cons show ?case by (simp add: slice_def)
qed

lemma slices_cumsum_bound:
  "\<forall>s\<in>set sizes. s \<le> k \<Longrightarrow> \<forall>ch\<in>set (slices (c # cumsum_from c sizes) xs). length ch \<le> k"
  by (induction sizes arbitrary: c) (auto simp: slice_def)



lemma section_sizes_bound:
  fixes L n k :: nat
  assumes "0 < n" "L \<le> n * k"
  shows "L div n \<le> k" and "0 < L mod n \<Longrightarrow> L div n + 1 \<le> k"
proof -
  show a: "L div n \<le> k"
  proof -
    have "L div n \<le> (n * k) div n" using assms(2) by (rule div_le_mono)
    then show ?thesis using assms(1) by simp
  qed
  show "L div n + 1 \<le> k" if "0 < L mod n"
  proof (rule ccontr)
    assume "\<not> L div n + 1 \<le> k"
    with a have e: "L div n = k" by simp
    have "L = n * (L div n) + L mod n" by simp
    with e that have "n * k < L" by (metis less_add_same_cancel1)
    with assms(2) show False by simp
  qed
qed

lemma array_split_chunks:
  assumes "0 < n"
  shows "\<exists>chunks. array_split arr n = Inr chunks \<and> int (length chunks) = n \<and> concat chunks = arr
     \<and> (int (length arr) \<le> n * k \<longrightarrow> (\<forall>ch\<in>set chunks. int (length ch) \<le> k))"
proof -
  define N where "N = nat n"
  define sizes where "sizes = replicate (length arr mod N) (length arr div N + 1) @ replicate (N - length arr mod N) (length arr div N)"
  define chunks where "chunks = slices (0 # cumsum_from 0 sizes) arr"
  have N: "0 < N" "int N = n" using assms by (simp_all add: N_def)
  have split: "array_split arr n = Inr chunks"
    using assms by (simp add: array_split_def Let_def chunks_def sizes_def N_def)
  have modlt: "length arr mod N < N" using N by simp
  then have len: "length sizes = N" by (simp add: sizes_def)
  have "sum_list sizes = length arr mod N * (length arr div N + 1) + (N - length arr mod N) * (length arr div N)"
    by (simp add: sizes_def sum_list_replicate)
  also have "\<dots> = N * (length arr div N) + length arr mod N"
    using modlt by (simp add: algebra_simps)
  finally have total: "sum_list sizes = length arr" by simp
  have c1: "int (length chunks) = n"
    using N len by (simp add: chunks_def length_slices length_cumsum_from)
  have c2: "concat chunks = arr"
    by (simp add: chunks_def concat_slices_cumsum total)
  have c3: "\<forall>ch\<in>set chunks. int (length ch) \<le> k" if "int (length arr) \<le> n * k"
  proof -
    have k0: "0 \<le> k"
    proof (rule ccontr)
      assume "\<not> 0 \<le> k"
      then have "n * k < 0" using assms by (simp add: mult_pos_neg)
      with that show False by simp
    qed
    define K where "K = nat k"
    have "int (length arr) \<le> int (N * K)" using that N k0 by (simp add: K_def)
    then have le: "length arr \<le> N * K" by (simp only: of_nat_le_iff)
    have "\<forall>s\<in>set sizes. s \<le> K"
      using section_sizes_bound[OF N(1) le] by (auto simp: sizes_def)
    then have "\<forall>ch\<in>set chunks. length ch \<le> K"
      unfolding chunks_def by (rule slices_cumsum_bound)
    then show ?thesis using k0 by (auto simp: K_def)
  qed
  show ?thesis using split c1 c2 c3 by blast
qed








text \<open>
  C10. For a bound \<open>k \<ge> 1\<close>, a bin whose index list is empty asks
  \<^verbatim>\<open>np.array_split\<close> for \<open>ceil(0 / k) = 0\<close> sections, which raises
  \<^verbatim>\<open>ValueError\<close> instead of yielding no subproblem; with the sentinel \<open>-1\<close> the
  same bin yields one (empty) subproblem and no error.
\<close>

theorem extract_subproblems_empty_group:
  assumes "1 \<le> k" and "i < length indexes" and "indexes ! i = []"
  shows "n_sections (indexes ! i) k = 0
    \<and> extract_subproblems indexes k ! i = Inl ValueError
    \<and> extract_subproblems indexes (- 1) ! i = Inr [[]]"
  using assms by (simp add: extract_subproblems_def n_sections_def array_split_def)

theorem extract_subproblems_empty_group_witness:
  "(1::int) \<le> 2 \<and> (1::nat) < length [[0, 1 :: int], []] \<and> [[0, 1 :: int], []] ! 1 = []
   \<and> extract_subproblems [[0, 1 :: int], []] 2 ! 1 = Inl ValueError
   \<and> extract_subproblems [[0, 1 :: int], []] (- 1) ! 1 = Inr [[]]"
  using extract_subproblems_empty_group[of 2 1 "[[0, 1 :: int], []]"] by simp

section \<open>Grouping\<close>

lemma slices_map: "slices ps (map g xs) = map (map g) (slices ps xs)"
  by (induction ps xs rule: slices.induct) (simp_all add: slice_def take_map drop_map)

lemma first_index_sorted:
  "sorted ks \<Longrightarrow> k \<in> set ks \<Longrightarrow> first_index ks k = length (filter (\<lambda>x. x < k) ks)"
proof (induction ks)
  case Nil
  then show ?case by simp
next
  case (Cons x xs)
  show ?case
  proof (cases "x = k")
    case True
    have "\<forall>y\<in>set xs. \<not> y < k" using Cons.prems(1) True by auto
    then have "filter (\<lambda>y. y < k) xs = []" by (simp add: filter_empty_conv)
    then show ?thesis using True by (simp add: first_index_def)
  next
    case False
    then have "k \<in> set xs" using Cons.prems(2) by simp
    moreover from this have "x < k" using Cons.prems(1) False by auto
    ultimately show ?thesis using Cons False by (simp add: first_index_def)
  qed
qed

lemma take_drop_sorted_filter:
  assumes "sorted (map f xs)"
  shows "take (length (filter (\<lambda>x. f x < k) xs)) xs = filter (\<lambda>x. f x < (k::int)) xs
       \<and> drop (length (filter (\<lambda>x. f x < k) xs)) xs = filter (\<lambda>x. \<not> f x < k) xs"
  using assms
proof (induction xs)
  case Nil
  then show ?case by simp
next
  case (Cons x xs)
  show ?case
  proof (cases "f x < k")
    case True
    then show ?thesis using Cons by simp
  next
    case False
    have "\<forall>y\<in>set xs. \<not> f y < k" using Cons.prems False by auto
    then have "filter (\<lambda>y. f y < k) xs = []" "filter (\<lambda>y. \<not> f y < k) xs = xs"
      by (simp_all add: filter_empty_conv)
    then show ?thesis using False by simp
  qed
qed

lemma slice_between_sorted:
  assumes "sorted (map f xs)" "k \<le> k'"
  shows "slice (length (filter (\<lambda>x. f x < k) xs)) (length (filter (\<lambda>x. f x < k') xs)) xs
           = filter (\<lambda>x. k \<le> f x \<and> f x < (k'::int)) xs"
proof -
  define ys where "ys = filter (\<lambda>x. \<not> f x < k) xs"
  have d: "drop (length (filter (\<lambda>x. f x < k) xs)) xs = ys"
    using take_drop_sorted_filter[OF assms(1)] by (simp add: ys_def)
  have s: "sorted (map f ys)" using assms(1) by (simp add: ys_def sorted_map sorted_wrt_filter)
  have "filter (\<lambda>x. f x < k') xs
          = filter (\<lambda>x. f x < k') (filter (\<lambda>x. f x < k) xs) @ filter (\<lambda>x. f x < k') ys"
    using take_drop_sorted_filter[OF assms(1), of k]
    by (metis append_take_drop_id filter_append ys_def)
  moreover have "filter (\<lambda>x. f x < k') (filter (\<lambda>x. f x < k) xs) = filter (\<lambda>x. f x < k) xs"
    using assms(2) by (auto intro: filter_cong)
  ultimately have "length (filter (\<lambda>x. f x < k') xs) - length (filter (\<lambda>x. f x < k) xs)
      = length (filter (\<lambda>x. f x < k') ys)" by simp
  then have "slice (length (filter (\<lambda>x. f x < k) xs)) (length (filter (\<lambda>x. f x < k') xs)) xs
      = take (length (filter (\<lambda>x. f x < k') ys)) ys" by (simp add: slice_def d)
  also have "\<dots> = filter (\<lambda>x. f x < k') ys" using take_drop_sorted_filter[OF s] by simp
  also have "\<dots> = filter (\<lambda>x. k \<le> f x \<and> f x < k') xs"
    by (auto simp: ys_def intro: filter_cong)
  finally show ?thesis .
qed

lemma slices_by_key:
  assumes "sorted (map f xs)"
  shows "sorted_wrt (<) K \<Longrightarrow> K \<noteq> [] \<Longrightarrow> \<forall>x\<in>set xs. hd K \<le> f x \<longrightarrow> f x \<in> set K \<Longrightarrow>
     slices (map (\<lambda>k. length (filter (\<lambda>x. f x < k) xs)) K @ [length xs]) xs
       = map (\<lambda>k. filter (\<lambda>x. f x = (k::int)) xs) K"
proof (induction K)
  case Nil
  then show ?case by simp
next
  case (Cons k K)
  show ?case
  proof (cases K)
    case Nil
    have "filter (\<lambda>x. \<not> f x < k) xs = filter (\<lambda>x. f x = k) xs"
      using Cons.prems(3) Nil by (auto intro: filter_cong)
    moreover have "slice (length (filter (\<lambda>x. f x < k) xs)) (length xs) xs
        = drop (length (filter (\<lambda>x. f x < k) xs)) xs" by (simp add: slice_def)
    ultimately show ?thesis
      using Nil take_drop_sorted_filter[OF assms, of k] by simp
  next
    case (Cons k' K')
    have lt: "k < k'" using Cons.prems(1) Cons by simp
    have above: "\<forall>y\<in>set K. k < y" using Cons.prems(1) by simp
    have a: "\<forall>x\<in>set xs. hd K \<le> f x \<longrightarrow> f x \<in> set K"
      using Cons.prems(3) Cons lt by auto
    have ih: "slices (map (\<lambda>k. length (filter (\<lambda>x. f x < k) xs)) K @ [length xs]) xs
       = map (\<lambda>k. filter (\<lambda>x. f x = k) xs) K"
      using Cons.IH Cons.prems(1) a Cons by simp
    have "filter (\<lambda>x. k \<le> f x \<and> f x < k') xs = filter (\<lambda>x. f x = k) xs"
    proof (rule filter_cong[OF refl])
      fix x assume x: "x \<in> set xs"
      show "(k \<le> f x \<and> f x < k') = (f x = k)"
      proof
        assume h: "k \<le> f x \<and> f x < k'"
        then have "f x \<in> set (k # K)" using Cons.prems(3) x by simp
        moreover have "\<forall>y\<in>set K. k' \<le> y" using Cons.prems(1) Cons by auto
        ultimately show "f x = k" using h by auto
      next
        assume "f x = k" then show "k \<le> f x \<and> f x < k'" using lt by simp
      qed
    qed
    then have "slice (length (filter (\<lambda>x. f x < k) xs)) (length (filter (\<lambda>x. f x < k') xs)) xs
                 = filter (\<lambda>x. f x = k) xs"
      using slice_between_sorted[OF assms, of k k'] lt by simp
    then show ?thesis using ih Cons by simp
  qed
qed

lemma group_sorted:
  fixes xs :: "(int \<times> 'v) list"
  assumes "sorted (map fst xs)" "xs \<noteq> []"
  shows "np_split (map snd xs) (tl (unique_index (map fst xs)))
           = map (\<lambda>k. map snd (filter (\<lambda>p. fst p = k) xs)) (sorted_list_of_set (fst ` set xs))"
proof -
  define K where "K = sorted_list_of_set (fst ` set xs)"
  define cnt where "cnt = (\<lambda>k. length (filter (\<lambda>x. fst x < k) xs))"
  have setK: "set K = fst ` set xs" by (simp add: K_def)
  have Kne: "K \<noteq> []" using assms(2) setK by (metis empty_is_image set_empty)
  have Ks: "sorted_wrt (<) K" by (simp add: K_def)
  then have Kle: "\<forall>y\<in>set K. hd K \<le> y" using Kne by (cases K) auto
  have cnt_eq: "first_index (map fst xs) k = cnt k" if "k \<in> set K" for k
  proof -
    have "first_index (map fst xs) k = length (filter (\<lambda>x. x < k) (map fst xs))"
      using first_index_sorted[OF assms(1)] that setK by simp
    also have "\<dots> = cnt k" by (simp add: cnt_def filter_map comp_def)
    finally show ?thesis .
  qed
  have ui: "unique_index (map fst xs) = map cnt K"
    using cnt_eq by (simp add: unique_index_def K_def)
  have "\<forall>x\<in>set xs. \<not> fst x < hd K" using Kle setK by (auto simp: not_less)
  then have "cnt (hd K) = 0" by (simp add: cnt_def filter_empty_conv)
  then have z: "0 # tl (map cnt K) = map cnt K" using Kne by (cases K) simp_all
  have "np_split (map snd xs) (tl (unique_index (map fst xs)))
          = slices (map cnt K @ [length xs]) (map snd xs)"
    using z by (simp add: np_split_def ui) (metis append_Cons)
  also have "\<dots> = map (map snd) (slices (map cnt K @ [length xs]) xs)" by (rule slices_map)
  also have "slices (map cnt K @ [length xs]) xs = map (\<lambda>k. filter (\<lambda>x. fst x = k) xs) K"
    unfolding cnt_def using slices_by_key[OF assms(1) Ks Kne] setK by simp
  finally show ?thesis by (simp add: K_def comp_def)
qed

lemma sum_length_by_key:
  "distinct K \<Longrightarrow> f ` set xs \<subseteq> set K \<Longrightarrow>
     sum_list (map (\<lambda>k. length (filter (\<lambda>x. f x = k) xs)) K) = length xs"
proof (induction K arbitrary: xs)
  case Nil
  then show ?case by simp
next
  case (Cons k K)
  define ys where "ys = filter (\<lambda>x. f x \<noteq> k) xs"
  have "f ` set ys \<subseteq> set K" using Cons.prems(2) by (auto simp: ys_def)
  then have ih: "sum_list (map (\<lambda>k. length (filter (\<lambda>x. f x = k) ys)) K) = length ys"
    using Cons by simp
  have "map (\<lambda>k'. length (filter (\<lambda>x. f x = k') xs)) K = map (\<lambda>k'. length (filter (\<lambda>x. f x = k') ys)) K"
  proof (rule map_cong[OF refl])
    fix k' assume "k' \<in> set K"
    then have "k' \<noteq> k" using Cons.prems(1) by auto
    then have "filter (\<lambda>x. f x = k') ys = filter (\<lambda>x. f x = k') xs"
      by (auto simp: ys_def intro: filter_cong)
    then show "length (filter (\<lambda>x. f x = k') xs) = length (filter (\<lambda>x. f x = k') ys)" by simp
  qed
  then have "sum_list (map (\<lambda>k'. length (filter (\<lambda>x. f x = k') xs)) K) = length ys"
    using ih by (simp only:)
  then have "sum_list (map (\<lambda>k. length (filter (\<lambda>x. f x = k) xs)) (k # K))
      = length (filter (\<lambda>x. f x = k) xs) + length ys" by simp
  also have "\<dots> = length xs" using sum_length_filter_compl[of "\<lambda>x. f x = k" xs] by (simp add: ys_def)
  finally show ?case .
qed

lemma valid_argsort_take_rows:
  assumes "valid_argsort (map fst a) perm"
  shows "mset (take_rows a perm) = mset a" and "sorted (map fst (take_rows a perm))"
proof -
  have m: "mset perm = mset [0..<length a]" using assms by (simp add: valid_argsort_def)
  have "mset (take_rows a perm) = image_mset (\<lambda>i. a ! i) (mset perm)" by (simp add: take_rows_def)
  also have "\<dots> = mset (map (\<lambda>i. a ! i) [0..<length a])" by (simp add: m)
  also have "\<dots> = mset a" by (simp add: map_nth)
  finally show "mset (take_rows a perm) = mset a" .
  have "set perm = {0..<length a}" using m by (metis mset_eq_setD set_upt)
  then have "map fst (take_rows a perm) = map (\<lambda>i. map fst a ! i) perm"
    by (auto simp: take_rows_def)
  then show "sorted (map fst (take_rows a perm))" using assms by (simp add: valid_argsort_def)
qed

lemma argsort_valid: "valid_argsort ks (argsort ks)"
proof -
  define zs where "zs = sort_key fst (zip ks [0..<length ks])"
  have "image_mset snd (mset zs) = image_mset snd (mset (zip ks [0..<length ks]))"
    by (simp add: zs_def)
  then have "mset (map snd zs) = mset (map snd (zip ks [0..<length ks]))"
    by (simp only: mset_map)
  moreover have "map snd (zip ks [0..<length ks]) = [0..<length ks]" by simp
  ultimately have a: "mset (argsort ks) = mset [0..<length ks]"
    by (simp only: argsort_def zs_def)
  have "\<forall>p\<in>set zs. ks ! snd p = fst p"
    by (auto simp: zs_def set_zip)
  then have "map (\<lambda>i. ks ! i) (map snd zs) = map fst zs" by simp
  moreover have "sorted (map fst zs)" by (simp add: zs_def)
  ultimately have "sorted (map (\<lambda>i. ks ! i) (map snd zs))" by (simp only:)
  then have "sorted (map (\<lambda>i. ks ! i) (argsort ks))" by (simp only: argsort_def zs_def)
  with a show ?thesis by (simp add: valid_argsort_def)
qed

text \<open>
  C5. For a non-empty array of (key, value) pairs, whatever permutation \<^verbatim>\<open>argsort\<close>
  returns, \<^verbatim>\<open>group_by\<close> yields one group per distinct key, in ascending order of
  the keys; the group of a key holds exactly the values paired with that key (as a
  multiset: their order inside a group hangs on the sort), and the group sizes add up
  to the number of rows. For the keys \<open>[0,1,1,0,2]\<close> with the values \<open>[1,2,3,4,5]\<close>
  the result is \<open>[[1,4],[2,3],[5]]\<close>.
\<close>

theorem group_by_groups:
  fixes a :: "(int \<times> 'v) list"
  assumes "a \<noteq> []" and "valid_argsort (map fst a) perm"
  shows "length (group_by_with perm a) = card (fst ` set a)
    \<and> (\<forall>j<card (fst ` set a).
          mset (group_by_with perm a ! j)
            = mset (map snd (filter (\<lambda>p. fst p = sorted_list_of_set (fst ` set a) ! j) a)))
    \<and> sum_list (map length (group_by_with perm a)) = length a
    \<and> valid_argsort (map fst a) (argsort (map fst a))
    \<and> group_by a = group_by_with (argsort (map fst a)) a
    \<and> group_by [(0, 1), (1, 2), (1, 3), (0, 4), (2, 5 :: int)] = [[1, 4], [2, 3], [5]]"
proof -
  define a' where "a' = take_rows a perm"
  define K where "K = sorted_list_of_set (fst ` set a)"
  have m: "mset a' = mset a" and s: "sorted (map fst a')"
    using valid_argsort_take_rows[OF assms(2)] by (simp_all add: a'_def)
  have seteq: "set a' = set a" using m by (rule mset_eq_setD)
  have ne: "a' \<noteq> []" using m assms(1) by auto
  have G: "group_by_with perm a = map (\<lambda>k. map snd (filter (\<lambda>p. fst p = k) a')) K"
    using group_sorted[OF s ne] by (simp add: group_by_with_def a'_def[symmetric] K_def seteq)
  have lenK: "length K = card (fst ` set a)" by (simp add: K_def)
  have c1: "length (group_by_with perm a) = card (fst ` set a)" by (simp add: G lenK)
  have c2: "mset (group_by_with perm a ! j) = mset (map snd (filter (\<lambda>p. fst p = K ! j) a))"
    if "j < card (fst ` set a)" for j
  proof -
    have "group_by_with perm a ! j = map snd (filter (\<lambda>p. fst p = K ! j) a')"
      using that lenK by (simp add: G)
    moreover have "mset (map snd (filter (\<lambda>p. fst p = K ! j) a'))
        = image_mset snd (filter_mset (\<lambda>p. fst p = K ! j) (mset a'))" by simp
    moreover have "mset (map snd (filter (\<lambda>p. fst p = K ! j) a))
        = image_mset snd (filter_mset (\<lambda>p. fst p = K ! j) (mset a))" by simp
    ultimately show ?thesis by (simp only: m)
  qed
  have "map length (group_by_with perm a) = map (\<lambda>k. length (filter (\<lambda>p. fst p = k) a')) K"
    by (simp add: G comp_def)
  moreover have "sum_list (map (\<lambda>k. length (filter (\<lambda>p. fst p = k) a')) K) = length a'"
    by (rule sum_length_by_key) (simp_all add: K_def seteq)
  moreover have "length a' = length a" using m by (rule mset_eq_length)
  ultimately have c3: "sum_list (map length (group_by_with perm a)) = length a" by simp
  have c4: "valid_argsort (map fst a) (argsort (map fst a))" by (rule argsort_valid)
  have c5: "group_by a = group_by_with (argsort (map fst a)) a" by (simp add: group_by_def)
  have c6: "group_by [(0, 1), (1, 2), (1, 3), (0, 4), (2, 5 :: int)] = [[1, 4], [2, 3], [5]]"
    by code_simp
  show ?thesis using c1 c2 c3 c4 c5 c6 unfolding K_def by blast
qed

lemma valid_argsort_example: "valid_argsort (map fst [(0, 1), (1, 2), (1, 3), (0, 4), (2, 5 :: int)]) [3, 0, 2, 1, 4]"
  by code_simp

lemma group_by_with_example:
  "group_by_with [3, 0, 2, 1, 4] [(0, 1), (1, 2), (1, 3), (0, 4), (2, 5 :: int)] = [[4, 1], [3, 2], [5]]"
  by code_simp

theorem group_by_groups_witness:
  "[(0 :: int, 1 :: int), (1, 2), (1, 3), (0, 4), (2, 5)] \<noteq> []
   \<and> valid_argsort (map fst [(0 :: int, 1 :: int), (1, 2), (1, 3), (0, 4), (2, 5)]) [3, 0, 2, 1, 4]
   \<and> group_by_with [3, 0, 2, 1, 4] [(0 :: int, 1 :: int), (1, 2), (1, 3), (0, 4), (2, 5)] = [[4, 1], [3, 2], [5]]
   \<and> card (fst ` set [(0 :: int, 1 :: int), (1, 2), (1, 3), (0, 4), (2, 5)]) = 3
   \<and> sum_list (map length (group_by_with [3, 0, 2, 1, 4] [(0 :: int, 1 :: int), (1, 2), (1, 3), (0, 4), (2, 5)])) = 5"
  using group_by_groups[OF _ valid_argsort_example] valid_argsort_example group_by_with_example
  by simp

text \<open>
  C9. On an array with no rows \<^verbatim>\<open>group_by\<close> does not raise, but the result is not
  the empty grouping: \<^verbatim>\<open>np.split\<close> with no division point returns the whole (empty)
  column as one sub-array.
\<close>

theorem group_by_empty_counterexample: "group_by ([] :: (int \<times> int) list) \<noteq> []"
  by (simp add: group_by_def group_by_with_def argsort_def take_rows_def unique_index_def np_split_def)

text \<open>
  C9, as amended. On an array with no rows \<^verbatim>\<open>group_by\<close> does not raise and returns
  a grouping of exactly one group, which is empty.
\<close>

theorem group_by_empty: "group_by ([] :: (int \<times> 'v) list) = [[]]"
  by (simp add: group_by_def group_by_with_def argsort_def take_rows_def unique_index_def np_split_def slice_def)

section \<open>Unbound names\<close>

text \<open>
  C1. The linearizer should return, for each coordinate row, its dot product with the
  products of the bin counts of the later axes: \<open>[3,9,1,10]\<close> for the bins per axis
  \<open>[1,3,2]\<close> and the coordinates of the docstring, and distinct values for distinct
  valid coordinates. The code raises \<^verbatim>\<open>NameError\<close> on every input, since its body
  reads \<^verbatim>\<open>bin_coords\<close> and its parameter is \<^verbatim>\<open>bins_coords\<close>. With the global
  \<^verbatim>\<open>bin_coords\<close> bound to the coordinates, the multiplier of an axis is the bin count
  of the next axis alone, \<open>[3,2,1]\<close> and not \<open>[6,2,1]\<close>: the result is \<open>[3,6,1,7]\<close>,
  and for the bins per axis \<open>[2,2,2]\<close> the valid coordinates \<open>[1,0,0]\<close> and
  \<open>[0,1,0]\<close> both get the index 2.
\<close>

theorem compute_linearized_bin_coords_docstring_example:
  "compute_linearized_bin_coords module_globals bins_per_axis bins_coords = Inl NameError
   \<and> compute_linearized_bin_coords module_globals [1, 3, 2] [[0, 1, 1], [1, 1, 1], [0, 0, 1], [1, 2, 0]]
       = Inl NameError
   \<and> shifted_nbins_per_axis [1, 3, 2] = [3, 2, 1]
   \<and> compute_linearized_bin_coords
         (module_globals\<lparr>g_bin_coords := Some [[0, 1, 1], [1, 1, 1], [0, 0, 1], [1, 2, 0]]\<rparr>)
         [1, 3, 2] [[0, 1, 1], [1, 1, 1], [0, 0, 1], [1, 2, 0]]
       = Inr [3, 6, 1, 7]
   \<and> compute_linearized_bin_coords
         (module_globals\<lparr>g_bin_coords := Some [[1, 0, 0], [0, 1, 0]]\<rparr>)
         [2, 2, 2] [[1, 0, 0], [0, 1, 0]]
       = Inr [2, 2]"
  by (simp add: compute_linearized_bin_coords_def module_globals_def shifted_nbins_per_axis_def
      np_dot_col_def)

lemma bind_err_Inl [simp]: "bind_err (Inl e) f = Inl e"
  by (simp add: bind_err_def)

lemma bind_err_Inr [simp]: "bind_err (Inr x) f = f x"
  by (simp add: bind_err_def)

text \<open>
  C3. The subproblems of \<^verbatim>\<open>distribute_subproblems\<close> should hold every point index
  exactly once. With the namespace of the module the call raises on every input, at
  the latest in \<^verbatim>\<open>compute_linearized_bin_coords\<close>, and produces no subproblem: for
  one point in a one-dimensional grid the result is \<^verbatim>\<open>NameError\<close>.
\<close>

theorem distribute_subproblems_name_error:
  "(\<exists>e. distribute_subproblems module_globals uniform_grid_cell_size uniform_grid_cell_count
          bins_size pts weights pts_per_future = Inl e)
   \<and> distribute_subproblems module_globals [1] [4] [2] [[1 / 2]] [1] (- 1) = Inl NameError"
proof
  have n: "compute_linearized_bin_coords module_globals b c = Inl NameError" for b c
    by (simp add: compute_linearized_bin_coords_def module_globals_def)
  show "\<exists>e. distribute_subproblems module_globals uniform_grid_cell_size uniform_grid_cell_count
          bins_size pts weights pts_per_future = Inl e"
    unfolding distribute_subproblems_def n
    by (cases "broadcast2 np_floordiv uniform_grid_cell_count bins_size";
        cases "distribute_bin_coords uniform_grid_cell_size uniform_grid_cell_count bins_size pts")
       simp_all
  show "distribute_subproblems module_globals [1] [4] [2] [[1 / 2]] [1] (- 1) = Inl NameError"
    unfolding distribute_subproblems_def n
    by (simp add: broadcast2_def distribute_bin_coords_def floor_divide_def clip_upper_out_def)
qed

text \<open>
  C6. The mapper should return the local array with the mapping function applied below
  the cutoff (exact mode) or everywhere. With the namespace of the module its first
  statement raises \<^verbatim>\<open>NameError\<close>, for every subproblem, cutoff, function and flag.
\<close>

theorem compute_mapped_distance_on_subgroup_name_error:
  "compute_mapped_distance_on_subgroup module_globals subgroup_info uniform_grid_cell_size
     uniform_grid_cell_count bins_size max_distance_in_cells function exact_max_distance reference_bin
   = Inl NameError"
  by (simp add: compute_mapped_distance_on_subgroup_def module_globals_def)

text \<open>
  C7. The entry point should return the same array for the unbounded sentinel and for
  every finite bound. With the namespace of the module it raises \<^verbatim>\<open>NameError\<close> for
  \<open>-1\<close> and for every other bound, and under any namespace it raises: no array is
  returned.
\<close>

theorem mapped_distance_matrix_name_error:
  "mapped_distance_matrix module_globals uniform_grid_cell_size uniform_grid_cell_count bins_size
     non_uniform_points max_distance func weights exact_max_distance (- 1) = Inl NameError
   \<and> mapped_distance_matrix module_globals uniform_grid_cell_size uniform_grid_cell_count bins_size
     non_uniform_points max_distance func weights exact_max_distance k = Inl NameError
   \<and> (\<exists>e. mapped_distance_matrix G uniform_grid_cell_size uniform_grid_cell_count bins_size
     non_uniform_points max_distance func weights exact_max_distance k = Inl e)"
  by (simp add: mapped_distance_matrix_def module_globals_def split: option.split)

text \<open>
  C8. The entry point should fail fast on malformed geometry or shapes and raise no
  such error on a well-formed input. It raises \<^verbatim>\<open>NameError\<close> on a well-formed
  input exactly as on one with a negative cell size; the steps of the distributor that
  read the geometry accept the negative cell size without an error.
\<close>

theorem mapped_distance_matrix_well_formed_raises:
  "mapped_distance_matrix module_globals [1] [4] [2] [[1 / 2]] 1 func (Some [1]) True 5 = Inl NameError
   \<and> mapped_distance_matrix module_globals [- 1] [4] [2] [[1 / 2]] 1 func (Some [1]) True 5 = Inl NameError
   \<and> distribute_bin_coords [- 1] [4] [2] [[1]] = Inr [[- 1]]"
  by (simp add: mapped_distance_matrix_def module_globals_def distribute_bin_coords_def
      broadcast2_def floor_divide_def clip_upper_out_def)

section \<open>Bin coordinates\<close>

text \<open>
  C2. The distributor should clamp every axis of a bin coordinate into
  \<open>[0, bins per axis - 1]\<close>, so that a point on or beyond the outer boundary of the grid
  lands in the last bin. The clip of line 181 has the upper bound
  \<^verbatim>\<open>uniform_grid_cell_count - 1\<close>, the index of the last cell, where the comment above
  it speaks of the last bin. With cell size 1, 4 cells and 2 cells per bin there are 2
  bins per axis, the last one with coordinate 1:
  \<^item> the point at 4, on the outer boundary, gets the coordinate 2;
  \<^item> the point at 100, far beyond it, gets the coordinate 3: the clip binds, at the last
    cell;
  \<^item> the point at 3, inside the last bin, gets the coordinate 1.
  With 5 cells and 2 cells per bin there are again 2 bins per axis, and the point at
  \<open>9/2\<close>, inside the grid, gets the coordinate 2.
\<close>

theorem distribute_bin_coords_boundary:
  "broadcast2 np_floordiv [4] [2] = Inr [2]
   \<and> distribute_bin_coords [1] [4] [2] [[4]] = Inr [[2]]
   \<and> distribute_bin_coords [1] [4] [2] [[100]] = Inr [[3]]
   \<and> distribute_bin_coords [1] [4] [2] [[3]] = Inr [[1]]
   \<and> broadcast2 np_floordiv [5] [2] = Inr [2]
   \<and> distribute_bin_coords [1] [5] [2] [[9 / 2]] = Inr [[2]]"
  by (simp add: distribute_bin_coords_def broadcast2_def floor_divide_def clip_upper_out_def
      np_floordiv_def)

text \<open>
  The clip has no lower bound (\<^verbatim>\<open>None\<close>): with cell size 1, 4 cells and 1 cell per
  bin, the point at \<open>-1/2\<close> keeps the coordinate \<open>-1\<close>.
\<close>

lemma distribute_bin_coords_negative_example:
  "distribute_bin_coords [1] [4] [1] [[- 1 / 2]] = Inr [[- 1]]
   \<and> broadcast2 np_floordiv [4] [1] = Inr [4]"
  by (simp add: distribute_bin_coords_def broadcast2_def floor_divide_def clip_upper_out_def
      np_floordiv_def)

section \<open>The partition of the point indices\<close>

lemma sequence_err_Inr:
  "sequence_err xs = Inr ys \<Longrightarrow> xs = map Inr ys"
proof (induction xs arbitrary: ys)
  case Nil
  then show ?case by simp
next
  case (Cons x xs)
  then show ?case by (auto split: sum.splits)
qed

lemma mset_concat_by_key:
  "distinct K \<Longrightarrow> f ` set xs \<subseteq> set K \<Longrightarrow>
     mset (concat (map (\<lambda>k. filter (\<lambda>x. f x = k) xs) K)) = mset xs"
proof (induction K arbitrary: xs)
  case Nil
  then show ?case by simp
next
  case (Cons k K)
  define ys where "ys = filter (\<lambda>x. f x \<noteq> k) xs"
  have "f ` set ys \<subseteq> set K" using Cons.prems(2) by (auto simp: ys_def)
  then have ih: "mset (concat (map (\<lambda>k. filter (\<lambda>x. f x = k) ys) K)) = mset ys"
    using Cons by simp
  have "map (\<lambda>k'. filter (\<lambda>x. f x = k') xs) K = map (\<lambda>k'. filter (\<lambda>x. f x = k') ys) K"
  proof (rule map_cong[OF refl])
    fix k' assume "k' \<in> set K"
    then have "k' \<noteq> k" using Cons.prems(1) by auto
    then show "filter (\<lambda>x. f x = k') xs = filter (\<lambda>x. f x = k') ys"
      by (auto simp: ys_def intro: filter_cong)
  qed
  then have "mset (concat (map (\<lambda>k'. filter (\<lambda>x. f x = k') xs) K)) = mset ys"
    using ih by (simp only:)
  then have "mset (concat (map (\<lambda>k. filter (\<lambda>x. f x = k) xs) (k # K)))
      = mset (filter (\<lambda>x. f x = k) xs) + mset (filter (\<lambda>x. f x \<noteq> k) xs)"
    by (simp add: ys_def)
  then show ?case by simp
qed

lemma group_by_Nil: "group_by ([] :: (int \<times> 'v) list) = [[]]"
  by (simp add: group_by_def group_by_with_def argsort_def take_rows_def unique_index_def np_split_def slice_def)

lemma mset_concat_group_by:
  fixes a :: "(int \<times> 'v) list"
  shows "mset (concat (group_by a)) = mset (map snd a)"
proof (cases "a = []")
  case True
  then show ?thesis by (simp add: group_by_Nil)
next
  case False
  define a' where "a' = take_rows a (argsort (map fst a))"
  define K where "K = sorted_list_of_set (fst ` set a')"
  have v: "valid_argsort (map fst a) (argsort (map fst a))" by (rule argsort_valid)
  have m: "mset a' = mset a" and s: "sorted (map fst a')"
    using valid_argsort_take_rows[OF v] by (simp_all add: a'_def)
  have ne: "a' \<noteq> []" using m False by auto
  have "group_by a = map (\<lambda>k. map snd (filter (\<lambda>p. fst p = k) a')) K"
    using group_sorted[OF s ne] by (simp add: group_by_def group_by_with_def a'_def[symmetric] K_def)
  then have "concat (group_by a) = map snd (concat (map (\<lambda>k. filter (\<lambda>p. fst p = k) a') K))"
    by (simp add: map_concat comp_def)
  moreover have "mset (concat (map (\<lambda>k. filter (\<lambda>p. fst p = k) a') K)) = mset a'"
    by (rule mset_concat_by_key) (simp_all add: K_def)
  ultimately have "mset (concat (group_by a)) = image_mset snd (mset a')" by simp
  then show ?thesis by (simp add: m)
qed

lemma array_split_concat:
  assumes "array_split arr n = Inr chunks"
  shows "concat chunks = arr"
proof -
  have "0 < n" using assms by (auto simp: array_split_def split: if_splits)
  from array_split_chunks[OF this, of arr 0] assms show ?thesis by auto
qed

lemma extract_subproblems_concat:
  assumes "sequence_err (extract_subproblems indexes k) = Inr bins"
  shows "map concat bins = indexes"
proof -
  have e: "extract_subproblems indexes k = map Inr bins"
    using assms by (rule sequence_err_Inr)
  then have len: "length bins = length indexes"
    by (metis length_map extract_subproblems_def)
  have "concat (bins ! i) = indexes ! i" if i: "i < length indexes" for i
  proof -
    have ei: "extract_subproblems indexes k ! i = Inr (bins ! i)"
      using e i len by simp
    show ?thesis
    proof (cases "k = - 1")
      case True
      then have "extract_subproblems indexes k ! i = Inr [indexes ! i]"
        using i by (simp add: extract_subproblems_def)
      then show ?thesis using ei by simp
    next
      case False
      then have "extract_subproblems indexes k ! i
          = (if k = 0 then Inl ZeroDivisionError else array_split (indexes ! i) (n_sections (indexes ! i) k))"
        using i by (simp add: extract_subproblems_def)
      then have "array_split (indexes ! i) (n_sections (indexes ! i) k) = Inr (bins ! i)"
        using ei by (auto split: if_splits)
      then show ?thesis by (rule array_split_concat)
    qed
  qed
  then show ?thesis using len by (simp add: list_eq_iff_nth_eq)
qed

lemma bind_err_eq_Inr: "bind_err m f = Inr y \<longleftrightarrow> (\<exists>x. m = Inr x \<and> f x = Inr y)"
  by (cases m) simp_all

lemma concat_map_concat: "concat (map concat xss) = concat (concat xss)"
  by (induction xss) simp_all

lemma hstack_index_snd:
  "hstack_index linearized n = Inr aug \<Longrightarrow> map snd aug = map int [0..<n]"
  by (auto simp: hstack_index_def split: if_splits)

text \<open>
  Whenever \<^verbatim>\<open>distribute_subproblems\<close> returns, under whatever namespace and for
  whatever \<^verbatim>\<open>pts_per_future\<close>, it has dispatched one task per subgroup, and the index
  lists of the subgroups together hold every index \<open>0, \<dots>, n - 1\<close> of the points
  exactly once. The grouping, the extraction and the dispatch keep the bookkeeping of
  the indices; what stops the call under the namespace of the module is the linearizer.
\<close>

theorem distribute_subproblems_partition:
  assumes "distribute_subproblems G uniform_grid_cell_size uniform_grid_cell_count bins_size pts
             weights pts_per_future = Inr futures"
  shows "\<exists>bin_coords subgroups.
           distribute_bin_coords uniform_grid_cell_size uniform_grid_cell_count bins_size pts = Inr bin_coords
         \<and> futures = map (\<lambda>subgroup. bin_content_tuple weights subgroup pts bin_coords) subgroups
         \<and> mset (concat subgroups) = mset (map int [0..<length pts])"
proof -
  from assms obtain bins_per_axis bin_coords linearized aug bins where
    bc: "distribute_bin_coords uniform_grid_cell_size uniform_grid_cell_count bins_size pts = Inr bin_coords"
    and aug: "hstack_index linearized (length pts) = Inr aug"
    and bins: "sequence_err (extract_subproblems (group_by aug) pts_per_future) = Inr bins"
    and futs: "futures = map (\<lambda>subgroup. bin_content_tuple weights subgroup pts bin_coords) (concat bins)"
    unfolding distribute_subproblems_def bind_err_eq_Inr Let_def by blast
  have "map concat bins = group_by aug" using bins by (rule extract_subproblems_concat)
  then have "concat (concat bins) = concat (group_by aug)"
    by (simp only: concat_map_concat[symmetric])
  then have "mset (concat (concat bins)) = mset (map snd aug)"
    by (simp add: mset_concat_group_by)
  then have "mset (concat (concat bins)) = mset (map int [0..<length pts])"
    using hstack_index_snd[OF aug] by (simp only:)
  with bc futs show ?thesis by blast
qed

lemma distribute_subproblems_example:
  "distribute_subproblems (module_globals\<lparr>g_bin_coords := Some [[0], [0], [1]]\<rparr>)
     [1] [4] [2] [[1 / 2], [3 / 2], [5 / 2]] [1, 1, 1] 2
   = Inr [Inr ([[1 / 2], [3 / 2]], [0], [0, 1], [1, 1]), Inr ([[5 / 2]], [1], [2], [1])]"
  by code_simp

theorem distribute_subproblems_partition_witness:
  "distribute_subproblems (module_globals\<lparr>g_bin_coords := Some [[0], [0], [1]]\<rparr>)
     [1] [4] [2] [[1 / 2], [3 / 2], [5 / 2]] [1, 1, 1] 2
   = Inr [Inr ([[1 / 2], [3 / 2]], [0], [0, 1], [1, 1]), Inr ([[5 / 2]], [1], [2], [1])]
   \<and> (\<exists>bin_coords subgroups.
         distribute_bin_coords [1] [4] [2] [[1 / 2], [3 / 2], [5 / 2]] = Inr bin_coords
       \<and> [Inr ([[1 / 2], [3 / 2]], [0], [0, 1], [1, 1]), Inr ([[5 / 2]], [1], [2], [1])]
           = map (\<lambda>subgroup. bin_content_tuple [1, 1, 1] subgroup [[1 / 2], [3 / 2], [5 / 2]] bin_coords) subgroups
       \<and> mset (concat subgroups) = mset (map int [0..<length [[1 / 2 :: real], [3 / 2], [5 / 2]]]))"
  using distribute_subproblems_partition[OF distribute_subproblems_example] distribute_subproblems_example
  by (intro conjI)

end
